theory Spec2Isabelle
  imports Main "HOL-Library.AList" "HOL-Library.Multiset"
begin

section \<open>Python primitives used by the three scripts\<close>

text \<open>
  The exceptions that the modelled fragments can raise. A computation that may raise
  returns a value of \<open>py_error + 'a\<close>, with \<open>Inl\<close> for the exception.
\<close>

datatype py_error = ValueError | IndexError | UnboundLocalError

definition bind_err :: "py_error + 'a \<Rightarrow> ('a \<Rightarrow> py_error + 'b) \<Rightarrow> py_error + 'b" where
  "bind_err m f = (case m of Inl e \<Rightarrow> Inl e | Inr x \<Rightarrow> f x)"

text \<open>
  \<open>range(start, stop, step)\<close> over Python's unbounded integers. A step of zero raises
  ValueError; a positive step counts up while below \<open>stop\<close>, a negative step counts down
  while above \<open>stop\<close>.
\<close>

function range_up :: "int \<Rightarrow> int \<Rightarrow> int \<Rightarrow> int list" where
  "range_up i stop step =
     (if 0 < step \<and> i < stop then i # range_up (i + step) stop step else [])"
  by pat_completeness auto
termination
  by (relation "measure (\<lambda>(i, stop, step). nat (stop - i))") auto

function range_down :: "int \<Rightarrow> int \<Rightarrow> int \<Rightarrow> int list" where
  "range_down i stop step =
     (if step < 0 \<and> stop < i then i # range_down (i + step) stop step else [])"
  by pat_completeness auto
termination
  by (relation "measure (\<lambda>(i, stop, step). nat (i - stop))") auto

definition py_range :: "int \<Rightarrow> int \<Rightarrow> int \<Rightarrow> py_error + int list" where
  "py_range start stop step =
     (if step = 0 then Inl ValueError
      else if 0 < step then Inr (range_up start stop step)
      else Inr (range_down start stop step))"

text \<open>
  The slice \<open>xs[lo:hi]\<close>: a negative bound counts from the end, and both bounds are
  clamped to the list, so a slice never raises.
\<close>

definition py_clamp :: "int \<Rightarrow> nat \<Rightarrow> nat" where
  "py_clamp i n = (if i < 0 then nat (max 0 (i + int n)) else min (nat i) n)"

definition py_slice :: "'a list \<Rightarrow> int \<Rightarrow> int \<Rightarrow> 'a list" where
  "py_slice xs lo hi =
     (let n = length xs; a = py_clamp lo n; b = py_clamp hi n
      in take (b - a) (drop a xs))"

text \<open>\<open>xs[i]\<close> for a non-negative index, raising IndexError out of range.\<close>

definition py_index :: "'a list \<Rightarrow> nat \<Rightarrow> py_error + 'a" where
  "py_index xs i = (if i < length xs then Inr (xs ! i) else Inl IndexError)"

text \<open>\<open>xs.index(x)\<close>: the position of the first occurrence, ValueError when there is none.\<close>

fun list_index :: "'a list \<Rightarrow> 'a \<Rightarrow> py_error + nat" where
  "list_index [] x = Inl ValueError"
| "list_index (y # ys) x =
     (if y = x then Inr 0 else bind_err (list_index ys x) (\<lambda>i. Inr (Suc i)))"

section \<open>CSV script: the chunk partitioner\<close>

text \<open>
  \<open>fetch_file_data(rows, offset, rows_per_chunk)\<close> returns
  \<open>rows[offset:offset+rows_per_chunk]\<close> (and the first row, which the caller discards).
\<close>

definition fetch_file_data :: "'a list \<Rightarrow> int \<Rightarrow> int \<Rightarrow> 'a list" where
  "fetch_file_data rows offset rows_per_chunk = py_slice rows offset (offset + rows_per_chunk)"

text \<open>
  The offsets visited by \<open>for offset in range(0, row_count, rows_per_chunk)\<close>, and the
  chunk fetched at each of them. \<open>row_count\<close> is \<open>len(rows) - 1\<close>, the number of data rows.
\<close>

definition chunk_offsets :: "int \<Rightarrow> int \<Rightarrow> py_error + int list" where
  "chunk_offsets row_count rows_per_chunk = py_range 0 row_count rows_per_chunk"

definition partition_chunks :: "'a list \<Rightarrow> int \<Rightarrow> py_error + (int \<times> 'a list) list" where
  "partition_chunks data_rows rows_per_chunk =
     bind_err (chunk_offsets (int (length data_rows)) rows_per_chunk)
       (\<lambda>offsets. Inr (map (\<lambda>offset. (offset, fetch_file_data data_rows offset rows_per_chunk)) offsets))"


section \<open>The tokenization service as seen by one chunk\<close>

text \<open>
  A request body: \<open>{"quorum": ..., "records": [{"fields": {...}}, ...], "tokenization": ...}\<close>.
  A Python dict is an association list in insertion order; \<open>AList.update\<close> is the
  assignment \<open>d[k] = v\<close>. The key \<open>tokenization\<close> may be absent (\<open>None\<close>).
\<close>

type_synonym dict = "(string \<times> string) list"

record sub_record =
  record_fields :: dict

record payload =
  quorum :: bool
  payload_records :: "sub_record list"
  tokenization :: "bool option"

text \<open>
  A response: its HTTP status, its text, and its decoded JSON body
  \<open>{"records": [{"skyflow_id": ..., "tokens": {...}}, ...]}\<close>, where each of the keys
  \<open>records\<close>, \<open>skyflow_id\<close> and \<open>tokens\<close> may be absent (\<open>None\<close>).
\<close>

record api_record =
  skyflow_id :: "string option"
  tokens :: "dict option"

record response_data =
  records :: "api_record list option"

record response =
  status_code :: int
  body_text :: string
  json :: response_data

text \<open>
  What a call does besides returning: the POST of attempt \<open>n\<close> (counted from 0), a sleep
  of so many seconds, and the messages written by \<open>logging.error\<close>.
\<close>

datatype event =
    Post nat
  | Sleep nat
  | LogAttemptFailed nat int
  | LogUnexpectedStructure
  | LogFailedApiCall int
  | LogTokenizationUnsuccessful
  | LogErrorOccurred

section \<open>CSV and Postgres scripts: \<open>make_api_call\<close> and \<open>process_chunk\<close>\<close>

text \<open>
  \<open>make_api_call\<close> of \<open>tokenize_data_csv.py\<close> and \<open>tokenize_data_postgres.py\<close> (the two
  are the same text). \<open>post attempt\<close> is the service's answer to the POST of that attempt.
  The loop variable \<open>response\<close> is unbound (\<open>None\<close>) until the first POST.
\<close>

fun make_api_call_loop :: "(nat \<Rightarrow> response) \<Rightarrow> nat list \<Rightarrow> response option \<Rightarrow> response option \<times> event list" where
  "make_api_call_loop post [] response = (response, [])"
| "make_api_call_loop post (attempt # rest) previous =
     (let response = post attempt in
      if status_code response = 200 then (Some response, [Post attempt])
      else if status_code response = 429 then
        (case make_api_call_loop post rest (Some response) of
           (r, evs) \<Rightarrow> (r, [Post attempt, LogAttemptFailed (attempt + 1) (status_code response), Sleep 5] @ evs))
      else
        (case make_api_call_loop post rest (Some response) of
           (r, evs) \<Rightarrow> (r, [Post attempt, LogAttemptFailed (attempt + 1) (status_code response), Sleep 1] @ evs)))"

definition make_api_call :: "(payload \<Rightarrow> nat \<Rightarrow> response) \<Rightarrow> payload \<Rightarrow> response option \<times> event list" where
  "make_api_call service payload =
     (let payload = payload\<lparr>tokenization := Some True\<rparr>;
          retries = 3
      in make_api_call_loop (service payload) [0..<retries] None)"

text \<open>
  The payload loop of \<open>process_chunk\<close>: for every row, a record whose
  \<open>fields\<close> dict (here \<open>record_fields\<close>) maps each column of \<open>all_columns[1:]\<close> that is not in \<open>skip_columns\<close> to \<open>row[i]\<close>.
\<close>

fun build_fields :: "string list \<Rightarrow> string list \<Rightarrow> (nat \<times> string) list \<Rightarrow> dict \<Rightarrow> py_error + dict" where
  "build_fields skip_columns row [] flds = Inr flds"
| "build_fields skip_columns row ((i, col) # rest) flds =
     (if col \<notin> set skip_columns
      then bind_err (py_index row i) (\<lambda>v. build_fields skip_columns row rest (AList.update col v flds))
      else build_fields skip_columns row rest flds)"

fun build_records :: "string list \<Rightarrow> string list \<Rightarrow> string list list \<Rightarrow> py_error + sub_record list" where
  "build_records skip_columns all_columns [] = Inr []"
| "build_records skip_columns all_columns (row # rows) =
     bind_err (build_fields skip_columns row (enumerate 0 (drop 1 all_columns)) [])
       (\<lambda>flds. bind_err (build_records skip_columns all_columns rows)
         (\<lambda>recs. Inr (\<lparr>record_fields = flds\<rparr> # recs)))"

text \<open>
  The result loop of \<open>process_chunk\<close>. A cell of a tokenized row is \<open>None\<close> for Python's
  \<open>None\<close> (a missing \<open>skyflow_id\<close>) and \<open>Some v\<close> for a string. The default of
  \<open>tokens.get(col, row[...])\<close> is evaluated before the lookup, so a short row raises
  IndexError even when the token is present.
\<close>

fun tokenize_cells :: "string list \<Rightarrow> string list \<Rightarrow> string list \<Rightarrow> dict \<Rightarrow> string list \<Rightarrow> py_error + string option list" where
  "tokenize_cells skip_columns columns row toks [] = Inr []"
| "tokenize_cells skip_columns columns row toks (col # rest) =
     bind_err (list_index columns col) (\<lambda>j.
     bind_err (py_index row j) (\<lambda>original.
       let cell = (if col \<in> set skip_columns then original
                   else (case map_of toks col of Some t \<Rightarrow> t | None \<Rightarrow> original))
       in bind_err (tokenize_cells skip_columns columns row toks rest)
            (\<lambda>cells. Inr (Some cell # cells))))"

definition tokens_or_empty :: "api_record \<Rightarrow> dict" where
  "tokens_or_empty r = (case tokens r of Some t \<Rightarrow> t | None \<Rightarrow> [])"

fun tokenize_rows :: "string list \<Rightarrow> string list \<Rightarrow> api_record list \<Rightarrow> (nat \<times> string list) list \<Rightarrow> py_error + string option list list" where
  "tokenize_rows skip_columns all_columns recs [] = Inr []"
| "tokenize_rows skip_columns all_columns recs ((i, row) # rest) =
     bind_err (py_index recs i) (\<lambda>r.
     bind_err (tokenize_cells skip_columns (drop 1 all_columns) row (tokens_or_empty r) (drop 1 all_columns))
       (\<lambda>cells. bind_err (tokenize_rows skip_columns all_columns recs rest)
         (\<lambda>more. Inr ((skyflow_id r # cells) # more))))"

definition response_ok :: "response_data \<Rightarrow> bool" where
  "response_ok response_data =
     (case records response_data of
        None \<Rightarrow> False
      | Some recs \<Rightarrow> list_all (\<lambda>r. tokens r \<noteq> None) recs)"

definition process_chunk ::
  "(payload \<Rightarrow> nat \<Rightarrow> response) \<Rightarrow> string list list \<Rightarrow> string list \<Rightarrow> string list \<Rightarrow>
     event list \<times> (py_error + string option list list)" where
  "process_chunk service rows skip_columns all_columns =
     (case build_records skip_columns all_columns rows of
        Inl e \<Rightarrow> ([], Inl e)
      | Inr recs \<Rightarrow>
          (case make_api_call service \<lparr>quorum = False, payload_records = recs, tokenization = None\<rparr> of
             (None, evs) \<Rightarrow> (evs, Inl UnboundLocalError)
           | (Some response, evs) \<Rightarrow>
               if status_code response = 200 then
                 (let response_data = json response in
                  if response_ok response_data
                  then (evs, tokenize_rows skip_columns all_columns (case records response_data of None \<Rightarrow> [] | Some recs \<Rightarrow> recs) (enumerate 0 rows))
                  else (evs @ [LogUnexpectedStructure], Inr []))
               else (evs @ [LogFailedApiCall (status_code response)], Inr [])))"


section \<open>CSV and Postgres scripts: the column reconciler\<close>

text \<open>
  A string is the list of the bytes of its UTF-8 encoding. \<open>s.split(',')\<close> cuts at every
  comma (the byte of the comma occurs in no other encoded character).
\<close>

fun py_split :: "char \<Rightarrow> string \<Rightarrow> string list" where
  "py_split sep [] = [[]]"
| "py_split sep (c # cs) =
     (if c = sep then [] # py_split sep cs
      else (case py_split sep cs of [] \<Rightarrow> [[c]] | w # ws \<Rightarrow> (c # w) # ws))"

text \<open>
  \<open>get_filtered_columns(config, rows)\<close> of the CSV script. \<open>skip_config\<close> is the value of
  \<open>config.get('COLUMN_SKIP', 'skip_columns', fallback='')\<close>; the header is \<open>rows[0]\<close>.
  \<open>str.strip\<close> and \<open>str.lower\<close> of Python 3 work on Unicode text (\<open>strip\<close> removes
  every Unicode white space character, \<open>lower\<close> follows the Unicode case mappings); they
  are the parameters \<open>strip\<close> and \<open>lower\<close>, so that what is proved holds of what they
  compute. The Postgres script computes the same three lists from the column names of
  the table.
\<close>

definition get_filtered_columns ::
  "(string \<Rightarrow> string) \<Rightarrow> (string \<Rightarrow> string) \<Rightarrow> string \<Rightarrow> string list list \<Rightarrow>
     py_error + (string list \<times> string list \<times> string list)" where
  "get_filtered_columns strip lower skip_config rows =
     (let skip_columns = py_split CHR '','' skip_config;
          skip_columns = map (\<lambda>col. lower (strip col)) (filter (\<lambda>col. strip col \<noteq> []) skip_columns)
      in bind_err (py_index rows 0) (\<lambda>header.
           let all_columns = map lower header;
               filtered_columns = filter (\<lambda>col. col \<notin> set skip_columns) all_columns
           in Inr (filtered_columns, skip_columns, all_columns)))"

section \<open>Completion order of concurrent chunks\<close>

text \<open>
  \<open>concurrent.futures.as_completed(fs)\<close> yields the futures in the order in which they
  finish, which is any order. The list \<open>picks\<close> fixes one such order: each pick selects
  which of the futures not yet yielded finishes next; when the picks run out, the remaining
  futures finish in the order of their submission. Every list of picks gives a permutation
  of the futures, and every permutation is given by some list of picks.
\<close>

fun as_completed :: "nat list \<Rightarrow> 'a list \<Rightarrow> 'a list" where
  "as_completed [] fs = fs"
| "as_completed (p # picks) fs =
     (if fs = [] then []
      else (let i = p mod length fs
            in fs ! i # as_completed picks (take i fs @ drop (Suc i) fs)))"

section \<open>CSV script: the main loop\<close>

text \<open>A cell is written to a CSV file as text; \<open>None\<close> is written as the empty string.\<close>

definition csv_cell :: "string option \<Rightarrow> string" where
  "csv_cell c = (case c of None \<Rightarrow> [] | Some v \<Rightarrow> v)"

text \<open>
  \<open>for completed_future in as_completed(futures)\<close>: \<open>result()\<close> re-raises the exception of
  a chunk that raised, which ends the run; otherwise the rows are appended to the temporary
  file.
\<close>

fun write_completed :: "(py_error + string option list list) list \<Rightarrow> string list list \<Rightarrow> py_error + string list list" where
  "write_completed [] temp = Inr temp"
| "write_completed (result # rest) temp =
     (case result of
        Inl e \<Rightarrow> Inl e
      | Inr tokenized_rows \<Rightarrow> write_completed rest (temp @ map (map csv_cell) tokenized_rows))"

text \<open>
  The loop over the offsets. \<open>service offset\<close> is the tokenization service as seen by the
  chunk at that offset, \<open>sched b\<close> the completion order of the \<open>b\<close>-th batch of futures.
\<close>

fun main_loop ::
  "(int \<Rightarrow> payload \<Rightarrow> nat \<Rightarrow> response) \<Rightarrow> (nat \<Rightarrow> nat list) \<Rightarrow> string list \<Rightarrow> string list \<Rightarrow>
     int \<Rightarrow> int \<Rightarrow> int \<Rightarrow> (int \<times> string list list) list \<Rightarrow>
     (py_error + string option list list) list \<Rightarrow> nat \<Rightarrow> string list list \<Rightarrow> py_error + string list list" where
  "main_loop service sched skip_columns all_columns max_parallel_tasks rows_per_chunk row_count
     [] futures b temp = Inr temp"
| "main_loop service sched skip_columns all_columns max_parallel_tasks rows_per_chunk row_count
     ((offset, input_data) # rest) futures b temp =
     (let future = snd (process_chunk (service offset) input_data skip_columns all_columns);
          futures = futures @ [future]
      in if max_parallel_tasks \<le> int (length futures) \<or> row_count \<le> offset + rows_per_chunk
         then bind_err (write_completed (as_completed (sched b) futures) temp)
                (\<lambda>temp. main_loop service sched skip_columns all_columns max_parallel_tasks
                          rows_per_chunk row_count rest [] (Suc b) temp)
         else main_loop service sched skip_columns all_columns max_parallel_tasks
                rows_per_chunk row_count rest futures b temp)"

text \<open>
  The body of the CSV script from the reading of the rows to the destination file: the
  result is the content of the destination file, header first. \<open>strip\<close> and \<open>lower\<close>
  are passed on to \<open>get_filtered_columns\<close>. \<open>ThreadPoolExecutor\<close> raises ValueError for
  \<open>max_workers \<le> 0\<close>.
\<close>

definition main_csv ::
  "(string \<Rightarrow> string) \<Rightarrow> (string \<Rightarrow> string) \<Rightarrow>
     (int \<Rightarrow> payload \<Rightarrow> nat \<Rightarrow> response) \<Rightarrow> (nat \<Rightarrow> nat list) \<Rightarrow> string \<Rightarrow> int \<Rightarrow> int \<Rightarrow>
     string list list \<Rightarrow> py_error + string list list" where
  "main_csv strip lower service sched skip_config rows_per_chunk max_parallel_tasks rows =
     bind_err (py_index rows 0) (\<lambda>headers_row.
       let data_rows = drop 1 rows;
           row_count = int (length rows) - 1
       in bind_err (get_filtered_columns strip lower skip_config (headers_row # data_rows))
            (\<lambda>(filtered_columns, skip_columns, all_columns).
               let all_columns = ''skyflow_id'' # all_columns
               in if max_parallel_tasks \<le> 0 then Inl ValueError
                  else bind_err (partition_chunks data_rows rows_per_chunk) (\<lambda>chunks.
                       bind_err (main_loop service sched skip_columns all_columns max_parallel_tasks
                                   rows_per_chunk row_count chunks [] 0 [])
                         (\<lambda>tokenized_data. Inr ((''skyflow_id'' # headers_row) # tokenized_data)))))"

section \<open>\<open>tokenize_data.py\<close>: the client, the chunk and the run\<close>

text \<open>
  \<open>make_api_call\<close> of \<open>tokenize_data.py\<close>: one branch for every status other than 200,
  with a sleep of one second.
\<close>

fun make_api_call_td_loop :: "(nat \<Rightarrow> response) \<Rightarrow> nat list \<Rightarrow> response option \<Rightarrow> response option \<times> event list" where
  "make_api_call_td_loop post [] response = (response, [])"
| "make_api_call_td_loop post (attempt # rest) previous =
     (let response = post attempt in
      if status_code response = 200 then (Some response, [Post attempt])
      else
        (case make_api_call_td_loop post rest (Some response) of
           (r, evs) \<Rightarrow> (r, [Post attempt, LogAttemptFailed (attempt + 1) (status_code response), Sleep 1] @ evs)))"

definition make_api_call_td :: "(payload \<Rightarrow> nat \<Rightarrow> response) \<Rightarrow> payload \<Rightarrow> response option \<times> event list" where
  "make_api_call_td service payload =
     (let retries = 3 in make_api_call_td_loop (service payload) [0..<retries] None)"

text \<open>
  The three files of a run of \<open>tokenize_data.py\<close>, each a list of CSV rows: the temporary
  file, the failed-records file (\<open>--ff\<close>) and the output file (\<open>--po\<close>).
\<close>

record files =
  temp_output :: "string list list"
  failed_records :: "string list list"
  output_csv :: "string list list"

text \<open>
  \<open>csv.DictWriter(f, fieldnames).writerow(d)\<close>: ValueError when \<open>d\<close> has a key that is not
  a field name, else the row of \<open>d.get(key, '')\<close> for each field name. \<open>writerows\<close> writes
  the rows one by one, so the rows before a raising one are written.
\<close>

definition dict_to_list :: "string list \<Rightarrow> (string \<times> 'v) list \<Rightarrow> ('v \<Rightarrow> string) \<Rightarrow> py_error + string list" where
  "dict_to_list fieldnames rowdict cell =
     (if list_ex (\<lambda>key. key \<notin> set fieldnames) (map fst rowdict) then Inl ValueError
      else Inr (map (\<lambda>key. case map_of rowdict key of None \<Rightarrow> [] | Some v \<Rightarrow> cell v) fieldnames))"

fun writerows :: "string list \<Rightarrow> dict list \<Rightarrow> string list list \<Rightarrow> string list list \<times> py_error option" where
  "writerows fieldnames [] file = (file, None)"
| "writerows fieldnames (row # rows) file =
     (case dict_to_list fieldnames row (\<lambda>v. v) of
        Inl e \<Rightarrow> (file, Some e)
      | Inr line \<Rightarrow> writerows fieldnames rows (file @ [line]))"

text \<open>
  The output row of one source row: \<open>skyflow_id\<close> from the record of the response, and
  for each field \<open>tokens.get(field, original_row.get(field))\<close>.
\<close>

fun output_row_td :: "string list \<Rightarrow> dict \<Rightarrow> dict \<Rightarrow> (string \<times> string option) list \<Rightarrow> (string \<times> string option) list" where
  "output_row_td [] original_row toks row = row"
| "output_row_td (field # rest) original_row toks row =
     output_row_td rest original_row toks
       (AList.update field
          (case map_of toks field of Some t \<Rightarrow> Some t | None \<Rightarrow> map_of original_row field) row)"

fun write_output_rows_td :: "string list \<Rightarrow> (dict \<times> api_record) list \<Rightarrow> string list list \<Rightarrow> string list list \<times> py_error option" where
  "write_output_rows_td fieldnames [] file = (file, None)"
| "write_output_rows_td fieldnames ((original_row, record) # rest) file =
     (let row = output_row_td fieldnames original_row (tokens_or_empty record)
                  [(''skyflow_id'', skyflow_id record)]
      in case dict_to_list (''skyflow_id'' # fieldnames) row csv_cell of
           Inl e \<Rightarrow> (file, Some e)
         | Inr line \<Rightarrow> write_output_rows_td fieldnames rest (file @ [line]))"

text \<open>
  \<open>process_chunk\<close> of \<open>tokenize_data.py\<close>: the files after the call, what it logged and
  did, and the exception it raised, if any.
\<close>

definition process_chunk_td ::
  "(payload \<Rightarrow> nat \<Rightarrow> response) \<Rightarrow> dict list \<Rightarrow> string list \<Rightarrow> files \<Rightarrow> files \<times> event list \<times> py_error option" where
  "process_chunk_td service rows fieldnames fs =
     (let payload = \<lparr>quorum = False,
                     payload_records = map (\<lambda>row. \<lparr>record_fields = row\<rparr>) rows,
                     tokenization = Some True\<rparr>
      in case make_api_call_td service payload of
           (None, evs) \<Rightarrow> (fs, evs, Some UnboundLocalError)
         | (Some response, evs) \<Rightarrow>
             if status_code response = 200 then
               (let response_data = json response;
                    evs = (if response_ok response_data then evs else evs @ [LogTokenizationUnsuccessful])
                in case write_output_rows_td fieldnames
                          (zip rows (case records response_data of None \<Rightarrow> [] | Some recs \<Rightarrow> recs))
                          (temp_output fs) of
                     (file, err) \<Rightarrow> (fs\<lparr>temp_output := file\<rparr>, evs, err))
             else
               (case writerows fieldnames rows (failed_records fs) of
                  (file, err) \<Rightarrow> (fs\<lparr>failed_records := file\<rparr>, evs @ [LogErrorOccurred], err)))"

text \<open>
  The reading loop: \<open>ROWS_PER_CHUNK\<close> rows at a time (\<open>next(reader, None)\<close>), the rows that
  are \<open>None\<close> or empty removed, until a read gives no row.
\<close>

function read_chunks :: "int \<Rightarrow> dict list \<Rightarrow> dict list list" where
  "read_chunks rows_per_chunk reader =
     (let rows = filter (\<lambda>row. row \<noteq> []) (take (nat rows_per_chunk) reader)
      in if rows = [] then [] else rows # read_chunks rows_per_chunk (drop (nat rows_per_chunk) reader))"
  by pat_completeness auto
termination
proof (relation "measure (\<lambda>(rows_per_chunk, reader). length reader)")
  show "wf (measure (\<lambda>(rows_per_chunk, reader). length reader))" by simp
next
  fix rows_per_chunk :: int and reader :: "dict list" and rows :: "dict list"
  assume r: "rows = filter (\<lambda>row. row \<noteq> []) (take (nat rows_per_chunk) reader)" and ne: "rows \<noteq> []"
  have "take (nat rows_per_chunk) reader \<noteq> []" using r ne by auto
  then have "0 < nat rows_per_chunk" and "reader \<noteq> []" by auto
  then show "((rows_per_chunk, drop (nat rows_per_chunk) reader), (rows_per_chunk, reader))
      \<in> measure (\<lambda>(rows_per_chunk, reader). length reader)"
    by (cases reader) auto
qed

text \<open>
  The chunks run in worker threads, each appending to the two files when its call returns;
  the main thread logs an exception of a chunk and goes on. The model runs the chunks one
  after the other in the order in which they finish, each append being undivided.
\<close>

fun run_chunks_td :: "(nat \<Rightarrow> payload \<Rightarrow> nat \<Rightarrow> response) \<Rightarrow> string list \<Rightarrow> (nat \<times> dict list) list \<Rightarrow> files \<Rightarrow> files" where
  "run_chunks_td service fieldnames [] fs = fs"
| "run_chunks_td service fieldnames ((k, rows) # rest) fs =
     run_chunks_td service fieldnames rest (fst (process_chunk_td (service k) rows fieldnames fs))"

text \<open>
  The script from the creation of the temporary file to the output file. \<open>service k\<close> is
  the tokenization service as seen by the \<open>k\<close>-th chunk, \<open>picks\<close> the completion order.
  The failed-records file is opened in mode \<open>w\<close>, which empties it.
\<close>

definition main_td ::
  "(nat \<Rightarrow> payload \<Rightarrow> nat \<Rightarrow> response) \<Rightarrow> nat list \<Rightarrow> int \<Rightarrow> string list \<Rightarrow> dict list \<Rightarrow> files \<Rightarrow> files" where
  "main_td service picks rows_per_chunk fieldnames reader fs =
     (let fs = fs\<lparr>temp_output := []\<rparr>;
          fs = fs\<lparr>failed_records := []\<rparr>;
          fs = fs\<lparr>temp_output := temp_output fs @ [''skyflow_id'' # fieldnames]\<rparr>;
          chunks = read_chunks rows_per_chunk reader;
          fs = run_chunks_td service fieldnames (as_completed picks (enumerate 0 chunks)) fs
      in fs\<lparr>output_csv := temp_output fs, temp_output := []\<rparr>)"


section \<open>Strings, responses and services used in the examples\<close>

text \<open>
  On ASCII text, \<open>str.strip\<close> removes the leading and trailing characters with the codes
  9 to 13 and 28 to 32, and \<open>str.lower\<close> maps the letters A to Z to a to z. The examples
  use these two functions, on ASCII text only.
\<close>

definition ascii_isspace :: "char \<Rightarrow> bool" where
  "ascii_isspace c = (let n = (of_char c :: nat) in (9 \<le> n \<and> n \<le> 13) \<or> (28 \<le> n \<and> n \<le> 32))"

definition ascii_strip :: "string \<Rightarrow> string" where
  "ascii_strip s = rev (dropWhile ascii_isspace (rev (dropWhile ascii_isspace s)))"

definition ascii_lower_char :: "char \<Rightarrow> char" where
  "ascii_lower_char c = (let n = (of_char c :: nat) in if 65 \<le> n \<and> n \<le> 90 then char_of (n + 32) else c)"

definition ascii_lower :: "string \<Rightarrow> string" where
  "ascii_lower s = map ascii_lower_char s"

definition ok_response :: "api_record list \<Rightarrow> response" where
  "ok_response recs = \<lparr>status_code = 200, body_text = [], json = \<lparr>records = Some recs\<rparr>\<rparr>"

definition error_response :: "int \<Rightarrow> response" where
  "error_response code = \<lparr>status_code = code, body_text = [], json = \<lparr>records = None\<rparr>\<rparr>"

text \<open>A service that answers every POST with 200 and the token \<open>tok_v\<close> for every value \<open>v\<close>.\<close>

definition echo_service :: "payload \<Rightarrow> nat \<Rightarrow> response" where
  "echo_service p attempt =
     ok_response (map (\<lambda>r. \<lparr>skyflow_id = Some ''id'',
                             tokens = Some (map (\<lambda>(k, v). (k, ''tok_'' @ v)) (record_fields r))\<rparr>)
                    (payload_records p))"

section \<open>Properties of the chunk partitioner\<close>

lemma range_up_closed:
  "0 < step \<Longrightarrow> range_up i stop step = map (\<lambda>k. i + int k * step) [0..<nat ((stop - i + step - 1) div step)]"
proof (induction i stop step rule: range_up.induct)
  case (1 i stop step)
  show ?case
  proof (cases "i < stop")
    case True
    define m where "m = nat ((stop - (i + step) + step - 1) div step)"
    have cnt: "nat ((stop - i + step - 1) div step) = Suc m"
    proof -
      have "stop - i + step - 1 = (stop - (i + step) + step - 1) + step" by simp
      then have "(stop - i + step - 1) div step = (stop - (i + step) + step - 1) div step + 1"
        using 1(2) by (metis div_add_self2 less_irrefl)
      moreover have "0 \<le> (stop - (i + step) + step - 1) div step"
        using True 1(2) by (simp add: pos_imp_zdiv_nonneg_iff)
      ultimately show ?thesis unfolding m_def by simp
    qed
    have ih: "range_up (i + step) stop step = map (\<lambda>k. i + step + int k * step) [0..<m]"
      using 1(1) True 1(2) unfolding m_def by simp
    have "range_up i stop step = i # range_up (i + step) stop step"
      using True 1(2) by simp
    also have "\<dots> = i # map (\<lambda>k. i + step + int k * step) [0..<m]" by (simp only: ih)
    also have "\<dots> = map (\<lambda>k. i + int k * step) [0..<Suc m]"
      by (simp add: upt_conv_Cons map_Suc_upt[symmetric] algebra_simps del: upt_Suc)
    finally show ?thesis by (simp only: cnt)
  next
    case False
    then have "(stop - i + step - 1) div step \<le> (step - 1) div step"
      using 1(2) by (intro zdiv_mono1) auto
    moreover have "(step - 1) div step = 0"
      using 1(2) by simp
    ultimately show ?thesis using False by simp
  qed
qed

lemma range_up_concat:
  "0 < cs \<Longrightarrow> 0 \<le> i \<Longrightarrow>
   concat (map (\<lambda>offset. fetch_file_data rows offset cs) (range_up i (int (length rows)) cs)) = drop (nat i) rows"
proof (induction i "int (length rows)" cs rule: range_up.induct)
  case (1 i cs)
  show ?case
  proof (cases "i < int (length rows)")
    case True
    have f: "fetch_file_data rows i cs = take (nat cs) (drop (nat i) rows)"
      using True 1(2,3) by (auto simp: fetch_file_data_def py_slice_def py_clamp_def Let_def min_def nat_add_distrib)
    have ih: "concat (map (\<lambda>offset. fetch_file_data rows offset cs) (range_up (i + cs) (int (length rows)) cs)) = drop (nat (i + cs)) rows"
      using 1 True by simp
    have d: "drop (nat (i + cs)) rows = drop (nat cs) (drop (nat i) rows)"
      using 1(2,3) by (simp add: nat_add_distrib add.commute)
    have "range_up i (int (length rows)) cs = i # range_up (i + cs) (int (length rows)) cs"
      using True 1(2) by simp
    then have "concat (map (\<lambda>offset. fetch_file_data rows offset cs) (range_up i (int (length rows)) cs))
        = fetch_file_data rows i cs @ concat (map (\<lambda>offset. fetch_file_data rows offset cs) (range_up (i + cs) (int (length rows)) cs))"
      by (simp del: range_up.simps)
    also have "\<dots> = take (nat cs) (drop (nat i) rows) @ drop (nat cs) (drop (nat i) rows)"
      by (simp only: f ih d)
    finally show ?thesis by (simp only: append_take_drop_id)
  next
    case False
    then show ?thesis by simp
  qed
qed


lemma offset_below:
  assumes "0 < cs" "k < nat ((n + cs - 1) div cs)"
  shows "int k * cs < n"
proof -
  have "int k + 1 \<le> (n + cs - 1) div cs" using assms(2) by linarith
  then have "(int k + 1) * cs \<le> ((n + cs - 1) div cs) * cs"
    using assms(1) by (simp add: mult_right_mono)
  also have "\<dots> = (n + cs - 1) - (n + cs - 1) mod cs"
    by (simp only: minus_mod_eq_div_mult)
  also have "\<dots> \<le> n + cs - 1"
  proof -
    have "0 \<le> (n + cs - 1) mod cs" using assms(1) by simp
    then show ?thesis by linarith
  qed
  finally show ?thesis by (simp add: algebra_simps)
qed

lemma fetch_at:
  assumes "0 < cs" "0 \<le> i"
  shows "fetch_file_data rows i cs = take (nat cs) (drop (nat i) rows)"
  using assms
  by (auto simp: fetch_file_data_def py_slice_def py_clamp_def Let_def min_def nat_add_distrib)

text \<open>
  Claim C3. For every list of data rows (so for every row count \<open>\<ge> 0\<close>) and every chunk
  size \<open>> 0\<close>, the loop \<open>for offset in range(0, row_count, rows_per_chunk)\<close> with
  \<open>fetch_file_data\<close> emits chunks that tile the rows exactly: their concatenation is the
  list of data rows (no gap, no overlap), the offsets are strictly ascending, the \<open>k\<close>-th
  chunk starts at \<open>k * rows_per_chunk\<close> and is the slice of the rows from there, every
  chunk but the last holds \<open>rows_per_chunk\<close> rows, and the last holds at least one row and
  at most \<open>rows_per_chunk\<close>.
\<close>

theorem partitioner_tiles:
  assumes "0 < rows_per_chunk"
  shows "\<exists>chunks. partition_chunks data_rows rows_per_chunk = Inr chunks
     \<and> concat (map snd chunks) = data_rows
     \<and> sorted_wrt (<) (map fst chunks)
     \<and> (\<forall>k<length chunks. fst (chunks ! k) = int k * rows_per_chunk
           \<and> snd (chunks ! k) = take (nat rows_per_chunk) (drop (k * nat rows_per_chunk) data_rows))
     \<and> (\<forall>k. Suc k < length chunks \<longrightarrow> length (snd (chunks ! k)) = nat rows_per_chunk)
     \<and> (\<forall>k. Suc k = length chunks \<longrightarrow>
           0 < length (snd (chunks ! k)) \<and> length (snd (chunks ! k)) \<le> nat rows_per_chunk)"
proof -
  define cs where "cs = rows_per_chunk"
  define n where "n = int (length data_rows)"
  define m where "m = nat ((n + cs - 1) div cs)"
  define offsets where "offsets = range_up 0 n cs"
  define chunks where "chunks = map (\<lambda>offset. (offset, fetch_file_data data_rows offset cs)) offsets"
  have cs: "0 < cs" using assms cs_def by simp
  have off: "offsets = map (\<lambda>k. int k * cs) [0..<m]"
    unfolding offsets_def m_def using range_up_closed[OF cs, of 0 n] by simp
  have len: "length chunks = m" by (simp add: chunks_def off)
  have p: "partition_chunks data_rows rows_per_chunk = Inr chunks"
    using cs by (simp add: partition_chunks_def chunk_offsets_def py_range_def bind_err_def
        chunks_def offsets_def n_def cs_def)
  have c: "concat (map snd chunks) = data_rows"
    using range_up_concat[OF cs, of 0 data_rows]
    by (simp add: chunks_def offsets_def n_def comp_def)
  have nth: "fst (chunks ! k) = int k * cs
      \<and> snd (chunks ! k) = take (nat cs) (drop (k * nat cs) data_rows)" if "k < m" for k
  proof -
    have "chunks ! k = (int k * cs, fetch_file_data data_rows (int k * cs) cs)"
      using that by (simp add: chunks_def off)
    moreover have "nat (int k * cs) = k * nat cs"
      using cs by (simp add: nat_mult_distrib)
    ultimately show ?thesis using fetch_at[OF cs, of "int k * cs" data_rows] cs by simp
  qed
  have below: "k * nat cs < length data_rows" if "k < m" for k
  proof -
    have "int k * cs < n" using offset_below[OF cs] that m_def by simp
    then have "int (k * nat cs) < int (length data_rows)" using cs n_def by simp
    then show ?thesis by linarith
  qed
  have s: "sorted_wrt (<) (map fst chunks)"
  proof -
    have "map fst chunks = map (\<lambda>k. int k * cs) [0..<m]"
      by (simp add: chunks_def off comp_def)
    moreover have "sorted_wrt (<) (map (\<lambda>k. int k * cs) [0..<m])"
      using cs by (simp add: sorted_wrt_map sorted_wrt_iff_nth_less)
    ultimately show ?thesis by simp
  qed
  have full: "length (snd (chunks ! k)) = nat cs" if "Suc k < m" for k
  proof -
    have "Suc k * nat cs < length data_rows" using below[OF that] .
    then have "nat cs \<le> length data_rows - k * nat cs" by simp
    moreover have "k < m" using that by simp
    ultimately show ?thesis using nth[of k] by simp
  qed
  have lst: "0 < length (snd (chunks ! k)) \<and> length (snd (chunks ! k)) \<le> nat cs" if "Suc k = m" for k
  proof -
    have km: "k < m" using that by simp
    have "k * nat cs < length data_rows" using below[OF km] .
    then show ?thesis using nth[OF km] cs by simp
  qed
  show ?thesis
    using p c s nth full lst unfolding len[symmetric] cs_def by blast
qed

theorem partitioner_tiles_witness:
  "(0::int) < 2 \<and> partition_chunks [''r0'', ''r1'', ''r2''] 2 = Inr [(0, [''r0'', ''r1'']), (2, [''r2''])]"
proof -
  have h: "(0::int) < 2" by simp
  from partitioner_tiles[OF h, of "[''r0'', ''r1'', ''r2'']"]
  obtain chunks where c: "partition_chunks [''r0'', ''r1'', ''r2''] 2 = Inr chunks" by blast
  have "partition_chunks [''r0'', ''r1'', ''r2''] 2 = Inr [(0, [''r0'', ''r1'']), (2, [''r2''])]"
    by (simp add: partition_chunks_def chunk_offsets_def py_range_def bind_err_def
        fetch_file_data_def py_slice_def py_clamp_def)
  then show ?thesis using h c by simp
qed

section \<open>Retries on HTTP 429\<close>

lemma upt_3: "[0..<3] = [0, 1, 2]"
  by (simp add: upt_rec)

text \<open>
  Claim C5, as the code has it. When every attempt is answered with 429, \<open>make_api_call\<close>
  of the CSV and Postgres scripts makes exactly three POSTs, sleeps 5 seconds after each
  of them (also after the third), and returns the third response; \<open>make_api_call\<close> of
  \<open>tokenize_data.py\<close> makes exactly three POSTs, sleeps 1 second after each of them, and
  returns the third response.
\<close>

theorem always_429_three_posts:
  assumes "\<forall>p attempt. status_code (service p attempt) = 429"
  shows "make_api_call service payload =
           (Some (service (payload\<lparr>tokenization := Some True\<rparr>) 2),
            [Post 0, LogAttemptFailed 1 429, Sleep 5,
             Post 1, LogAttemptFailed 2 429, Sleep 5,
             Post 2, LogAttemptFailed 3 429, Sleep 5])
     \<and> make_api_call_td service payload =
           (Some (service payload 2),
            [Post 0, LogAttemptFailed 1 429, Sleep 1,
             Post 1, LogAttemptFailed 2 429, Sleep 1,
             Post 2, LogAttemptFailed 3 429, Sleep 1])"
  using assms by (simp add: make_api_call_def make_api_call_td_def upt_3 Let_def)

theorem always_429_three_posts_witness:
  "make_api_call (\<lambda>p attempt. error_response 429) \<lparr>quorum = False, payload_records = [], tokenization = None\<rparr> =
           (Some (error_response 429),
            [Post 0, LogAttemptFailed 1 429, Sleep 5,
             Post 1, LogAttemptFailed 2 429, Sleep 5,
             Post 2, LogAttemptFailed 3 429, Sleep 5])"
proof -
  have h: "\<forall>p attempt. status_code ((\<lambda>p attempt. error_response 429) p attempt) = 429"
    by (simp add: error_response_def)
  from always_429_three_posts[OF h] show ?thesis by simp
qed

text \<open>
  Claim C5 as stated fails on \<open>tokenize_data.py\<close>: its sleeps after a 429 last 1 second.
\<close>

theorem always_429_one_second_counterexample:
  "snd (make_api_call_td (\<lambda>p attempt. error_response 429)
          \<lparr>quorum = False, payload_records = [], tokenization = Some True\<rparr>) =
     [Post 0, LogAttemptFailed 1 429, Sleep 1,
      Post 1, LogAttemptFailed 2 429, Sleep 1,
      Post 2, LogAttemptFailed 3 429, Sleep 1]"
  by (simp add: make_api_call_td_def upt_3 error_response_def)

section \<open>The chunk size is not validated\<close>

lemma partition_chunks_zero: "partition_chunks data_rows 0 = Inl ValueError"
  by (simp add: partition_chunks_def chunk_offsets_def py_range_def bind_err_def)

lemma partition_chunks_negative:
  "rows_per_chunk < 0 \<Longrightarrow> partition_chunks data_rows rows_per_chunk = Inr []"
  by (subst partition_chunks_def, subst chunk_offsets_def, subst py_range_def, subst range_down.simps)
     (simp add: bind_err_def)

lemma partition_chunks_positive:
  "0 < rows_per_chunk \<Longrightarrow>
   partition_chunks data_rows rows_per_chunk =
     Inr (map (\<lambda>offset. (offset, fetch_file_data data_rows offset rows_per_chunk))
            (range_up 0 (int (length data_rows)) rows_per_chunk))"
  by (simp add: partition_chunks_def chunk_offsets_def py_range_def bind_err_def)

lemma get_filtered_columns_eq:
  "get_filtered_columns strip lower skip_config (header # rest) =
     Inr (filter (\<lambda>col. col \<notin> set (map (\<lambda>e. lower (strip e)) (filter (\<lambda>e. strip e \<noteq> []) (py_split CHR '','' skip_config))))
            (map lower header),
          map (\<lambda>e. lower (strip e)) (filter (\<lambda>e. strip e \<noteq> []) (py_split CHR '','' skip_config)),
          map lower header)"
  by (simp add: get_filtered_columns_def py_index_def bind_err_def Let_def)

lemma main_csv_unfold:
  assumes "rows = headers_row # data_rows" "0 < max_parallel_tasks"
  shows "main_csv strip lower service sched skip_config rows_per_chunk max_parallel_tasks rows =
     (case get_filtered_columns strip lower skip_config rows of
        Inl e \<Rightarrow> Inl e
      | Inr (filtered_columns, skip_columns, all_columns) \<Rightarrow>
          bind_err (partition_chunks data_rows rows_per_chunk) (\<lambda>chunks.
            bind_err (main_loop service sched skip_columns (''skyflow_id'' # all_columns) max_parallel_tasks
                        rows_per_chunk (int (length data_rows)) chunks [] 0 [])
              (\<lambda>tokenized_data. Inr ((''skyflow_id'' # headers_row) # tokenized_data))))"
  using assms
  by (auto simp: main_csv_def py_index_def bind_err_def Let_def split: sum.splits prod.splits)

lemma as_completed_Nil: "as_completed picks [] = []"
  by (cases picks) simp_all

lemma read_chunks_nonpositive: "rows_per_chunk \<le> 0 \<Longrightarrow> read_chunks rows_per_chunk reader = []"
  by (subst read_chunks.simps) simp

text \<open>
  Claim C9, as the code has it. The chunk size is not validated. In the CSV script, a chunk
  size of 0 makes \<open>range\<close> raise ValueError before any chunk is dispatched, whatever the
  service would answer; a negative chunk size raises nothing: the range is empty, no chunk
  is dispatched and the destination file holds the header only; a chunk size \<open>\<ge> 1\<close> never
  makes the partitioner raise: it gives the chunks at the offsets of the range. In
  \<open>tokenize_data.py\<close>, a chunk size \<open>\<le> 0\<close> raises nothing either: the reading loop ends
  at once with no chunk, so none is dispatched, the failed-records file is empty and the
  output file holds the header only.
\<close>

theorem chunk_size_not_validated:
  assumes "rows = headers_row # data_rows" "0 < max_parallel_tasks"
  shows "main_csv strip lower service sched skip_config 0 max_parallel_tasks rows = Inl ValueError
     \<and> (rows_per_chunk < 0 \<longrightarrow>
          partition_chunks data_rows rows_per_chunk = Inr []
          \<and> main_csv strip lower service sched skip_config rows_per_chunk max_parallel_tasks rows
              = Inr [''skyflow_id'' # headers_row])
     \<and> (0 < rows_per_chunk \<longrightarrow>
          partition_chunks data_rows rows_per_chunk =
            Inr (map (\<lambda>offset. (offset, fetch_file_data data_rows offset rows_per_chunk))
                   (range_up 0 (int (length data_rows)) rows_per_chunk)))
     \<and> (rows_per_chunk \<le> 0 \<longrightarrow>
          read_chunks rows_per_chunk reader = []
          \<and> main_td service_td picks rows_per_chunk fieldnames reader fs
              = \<lparr>temp_output = [], failed_records = [], output_csv = [''skyflow_id'' # fieldnames]\<rparr>)"
proof -
  obtain f s a where g: "get_filtered_columns strip lower skip_config rows = Inr (f, s, a)"
    using get_filtered_columns_eq assms(1) by blast
  have z: "main_csv strip lower service sched skip_config 0 max_parallel_tasks rows = Inl ValueError"
    by (simp add: main_csv_unfold[OF assms] g partition_chunks_zero bind_err_def)
  have n: "main_csv strip lower service sched skip_config rows_per_chunk max_parallel_tasks rows
              = Inr [''skyflow_id'' # headers_row]" if "rows_per_chunk < 0"
    by (simp add: main_csv_unfold[OF assms] g partition_chunks_negative[OF that] bind_err_def)
  have t: "main_td service_td picks rows_per_chunk fieldnames reader fs
              = \<lparr>temp_output = [], failed_records = [], output_csv = [''skyflow_id'' # fieldnames]\<rparr>"
    if "rows_per_chunk \<le> 0"
    by (cases fs) (simp add: main_td_def read_chunks_nonpositive[OF that] as_completed_Nil
        del: read_chunks.simps)
  show ?thesis
    using z n t partition_chunks_negative partition_chunks_positive read_chunks_nonpositive by blast
qed

theorem chunk_size_not_validated_witness:
  "main_csv ascii_strip ascii_lower (\<lambda>offset. echo_service) (\<lambda>b. []) [] 0 5 [[''name''], [''A'']] = Inl ValueError
   \<and> main_csv ascii_strip ascii_lower (\<lambda>offset. echo_service) (\<lambda>b. []) [] (-1) 5 [[''name''], [''A'']]
       = Inr [[''skyflow_id'', ''name'']]
   \<and> partition_chunks [[''A'']] 1 = Inr [(0, [[''A'']])]
   \<and> main_td (\<lambda>k. echo_service) [] 0 [''name''] [[(''name'', ''A'')]]
        \<lparr>temp_output = [], failed_records = [[''old'']], output_csv = []\<rparr>
       = \<lparr>temp_output = [], failed_records = [], output_csv = [[''skyflow_id'', ''name'']]\<rparr>"
proof -
  have h1: "[[''name''], [''A'']] = [''name''] # [[''A'']]" by simp
  have h2: "(0::int) < 5" by simp
  have p: "partition_chunks [[''A'']] 1 = Inr [(0, [[''A'']])]"
    by (simp add: partition_chunks_def chunk_offsets_def py_range_def bind_err_def
        fetch_file_data_def py_slice_def py_clamp_def)
  show ?thesis
    using chunk_size_not_validated[OF h1 h2, of ascii_strip ascii_lower "\<lambda>offset. echo_service" "\<lambda>b. []" "[]" "-1"
        "[[(''name'', ''A'')]]" "\<lambda>k. echo_service" "[]" "[''name'']"
        "\<lparr>temp_output = [], failed_records = [[''old'']], output_csv = []\<rparr>"]
      chunk_size_not_validated[OF h1 h2, of ascii_strip ascii_lower "\<lambda>offset. echo_service" "\<lambda>b. []" "[]" "0"
        "[[(''name'', ''A'')]]" "\<lambda>k. echo_service" "[]" "[''name'']"
        "\<lparr>temp_output = [], failed_records = [[''old'']], output_csv = []\<rparr>"] p
    by simp
qed

text \<open>
  Claim C9 as stated fails: with \<open>rows_per_chunk = -1\<close> the run of the CSV script ends
  without any error.
\<close>

theorem negative_chunk_size_counterexample:
  "main_csv ascii_strip ascii_lower (\<lambda>offset. echo_service) (\<lambda>b. []) [] (-1) 5 [[''name''], [''A'']]
     = Inr [[''skyflow_id'', ''name'']]"
  by code_simp

section \<open>The column reconciler\<close>

text \<open>
  Claim C4, as the code has it. For every header \<open>rows[0]\<close> and every configured skip
  string, \<open>get_filtered_columns\<close> returns: as \<open>all_columns\<close> the lower-cased header (the
  caller prepends \<open>skyflow_id\<close> afterwards); as \<open>skip_columns\<close> every non-blank entry of
  the skip string, trimmed and lower-cased, whether it names a column or not; as
  \<open>filtered_columns\<close> (the columns to tokenize) the columns that are no member of
  \<open>skip_columns\<close>. So the two are disjoint, and \<open>filtered_columns\<close> together with the skip
  entries that name a column is the full column list. The skip entries that name no column
  stay in \<open>skip_columns\<close>: the union of the two returned lists is the column list plus
  those entries.
\<close>

theorem reconciler_partition:
  "\<exists>filtered_columns skip_columns all_columns.
     get_filtered_columns strip lower skip_config (header # rest)
       = Inr (filtered_columns, skip_columns, all_columns)
     \<and> all_columns = map lower header
     \<and> skip_columns = map (\<lambda>entry. lower (strip entry))
                        (filter (\<lambda>entry. strip entry \<noteq> []) (py_split CHR '','' skip_config))
     \<and> filtered_columns = filter (\<lambda>col. col \<notin> set skip_columns) all_columns
     \<and> set filtered_columns \<inter> set skip_columns = {}
     \<and> set filtered_columns \<union> (set skip_columns \<inter> set all_columns) = set all_columns
     \<and> set filtered_columns \<union> set skip_columns = set all_columns \<union> (set skip_columns - set all_columns)"
  by (subst get_filtered_columns_eq) auto

theorem reconciler_partition_witness:
  "get_filtered_columns ascii_strip ascii_lower '' City ,zip'' [[''Name'', ''SSN'', ''city'']]
      = Inr ([''name'', ''ssn''], [''city'', ''zip''], [''name'', ''ssn'', ''city''])"
proof -
  from reconciler_partition[of ascii_strip ascii_lower "'' City ,zip''" "[''Name'', ''SSN'', ''city'']" "[]"]
  obtain f s a where
    g: "get_filtered_columns ascii_strip ascii_lower '' City ,zip'' [[''Name'', ''SSN'', ''city'']] = Inr (f, s, a)"
    and a: "a = map ascii_lower [''Name'', ''SSN'', ''city'']"
    and s: "s = map (\<lambda>entry. ascii_lower (ascii_strip entry))
                        (filter (\<lambda>entry. ascii_strip entry \<noteq> []) (py_split CHR '','' '' City ,zip''))"
    and f: "f = filter (\<lambda>col. col \<notin> set s) a"
    by blast
  have a': "a = [''name'', ''ssn'', ''city'']" unfolding a by code_simp
  have s': "s = [''city'', ''zip'']" unfolding s by code_simp
  have f': "f = [''name'', ''ssn'']" unfolding f a' s' by code_simp
  show ?thesis using g a' s' f' by simp
qed

text \<open>
  Claim C4 as stated fails: with the header \<open>name\<close> and the skip entry \<open>zip\<close>, the union of
  the returned lists has \<open>zip\<close>, which is no column.
\<close>

theorem reconciler_union_counterexample:
  "get_filtered_columns ascii_strip ascii_lower ''zip'' [[''name'']] = Inr ([''name''], [''zip''], [''name''])
   \<and> set [''name''] \<union> set [''zip''] \<noteq> set [''name'']"
proof -
  have "get_filtered_columns ascii_strip ascii_lower ''zip'' [[''name'']] = Inr ([''name''], [''zip''], [''name''])"
    by code_simp
  moreover have "set [''name''] \<union> set [''zip''] \<noteq> set [''name'']" by auto
  ultimately show ?thesis by blast
qed

section \<open>The request payload\<close>

lemma update_fresh: "k \<notin> fst ` set al \<Longrightarrow> AList.update k v al = al @ [(k, v)]"
  by (induction al) auto

lemma build_fields_Inr:
  "build_fields skip row (enumerate n cols) flds = Inr flds' \<Longrightarrow>
     map_of flds' = map_of flds ++ map_of (rev (map (\<lambda>(i, c). (c, row ! i))
                      (filter (\<lambda>(i, c). c \<notin> set skip) (enumerate n cols))))
     \<and> (distinct cols \<and> set cols \<inter> fst ` set flds = {} \<longrightarrow>
          flds' = flds @ map (\<lambda>(i, c). (c, row ! i)) (filter (\<lambda>(i, c). c \<notin> set skip) (enumerate n cols)))
     \<and> (\<forall>(i, c) \<in> set (enumerate n cols). c \<notin> set skip \<longrightarrow> i < length row)"
proof (induction cols arbitrary: n flds)
  case Nil
  then show ?case by simp
next
  case (Cons c cs)
  show ?case
  proof (cases "c \<in> set skip")
    case True
    then have "build_fields skip row (enumerate (Suc n) cs) flds = Inr flds'"
      using Cons.prems by simp
    from Cons.IH[OF this] True show ?thesis by auto
  next
    case False
    let ?flds1 = "AList.update c (row ! n) flds"
    have n: "n < length row"
      using Cons.prems False by (auto simp: py_index_def bind_err_def split: if_splits)
    then have b: "build_fields skip row (enumerate (Suc n) cs) ?flds1 = Inr flds'"
      using Cons.prems False by (simp add: py_index_def bind_err_def)
    note ih = Cons.IH[OF b]
    let ?rest = "map (\<lambda>(i, c). (c, row ! i)) (filter (\<lambda>(i, c). c \<notin> set skip) (enumerate (Suc n) cs))"
    have m1: "map_of flds' = map_of ?flds1 ++ map_of (rev ?rest)" using ih by blast
    have m2: "map_of ?flds1 = (map_of flds)(c \<mapsto> row ! n)" by (rule update_conv')
    have k: "map (\<lambda>(i, c). (c, row ! i)) (filter (\<lambda>(i, c). c \<notin> set skip) (enumerate n (c # cs)))
        = (c, row ! n) # ?rest"
      using False by simp
    have m3: "map_of (rev ((c, row ! n) # ?rest)) = [c \<mapsto> row ! n] ++ map_of (rev ?rest)"
    proof -
      have "map_of [(c, row ! n)] = [c \<mapsto> row ! n]" by simp
      then show ?thesis by (simp only: rev.simps map_of_append)
    qed
    have m4: "map_of flds ++ ([c \<mapsto> row ! n] ++ map_of (rev ?rest))
        = (map_of flds)(c \<mapsto> row ! n) ++ map_of (rev ?rest)"
      by (rule ext) (simp add: map_add_def split: option.splits)
    have m: "map_of flds' = map_of flds ++ map_of (rev (map (\<lambda>(i, c). (c, row ! i))
                      (filter (\<lambda>(i, c). c \<notin> set skip) (enumerate n (c # cs)))))"
      by (simp only: k m3 m4 m1 m2)
    have e: "flds' = flds @ map (\<lambda>(i, c). (c, row ! i)) (filter (\<lambda>(i, c). c \<notin> set skip) (enumerate n (c # cs)))"
      if h: "distinct (c # cs) \<and> set (c # cs) \<inter> fst ` set flds = {}"
    proof -
      have fresh: "c \<notin> fst ` set flds" using h by auto
      have u: "?flds1 = flds @ [(c, row ! n)]" using update_fresh[OF fresh] .
      have "distinct cs \<and> set cs \<inter> fst ` set ?flds1 = {}" using h by (auto simp: u)
      then show ?thesis using ih False by (simp add: u)
    qed
    have r: "\<forall>(i, c) \<in> set (enumerate n (c # cs)). c \<notin> set skip \<longrightarrow> i < length row"
      using ih n by simp
    show ?thesis using m e r by blast
  qed
qed

lemma build_fields_Inl:
  "build_fields skip row (enumerate n cols) flds = Inl e \<Longrightarrow> e = IndexError"
proof (induction cols arbitrary: n flds)
  case Nil
  then show ?case by simp
next
  case (Cons c cs)
  then show ?case
    by (auto simp: py_index_def bind_err_def split: if_splits)
qed

lemma build_fields_total:
  "length cols + n \<le> length row \<Longrightarrow> \<exists>flds'. build_fields skip row (enumerate n cols) flds = Inr flds'"
proof (induction cols arbitrary: n flds)
  case Nil
  then show ?case by simp
next
  case (Cons c cs)
  have "length cs + Suc n \<le> length row" using Cons.prems by simp
  from Cons.IH[OF this] Cons.prems show ?case
    by (simp add: py_index_def bind_err_def)
qed

text \<open>What a well-built \<open>fields\<close> dict of a row is.\<close>

lemma build_fields_row:
  assumes "build_fields skip row (enumerate 0 cols) [] = Inr flds"
  shows "dom (map_of flds) = set cols - set skip"
    and "map_of flds c = Some v \<Longrightarrow> \<exists>i<length cols. cols ! i = c \<and> c \<notin> set skip \<and> i < length row \<and> row ! i = v"
    and "distinct cols \<Longrightarrow> flds = map (\<lambda>(i, c). (c, row ! i)) (filter (\<lambda>(i, c). c \<notin> set skip) (enumerate 0 cols))"
proof -
  let ?kept = "map (\<lambda>(i, c). (c, row ! i)) (filter (\<lambda>(i, c). c \<notin> set skip) (enumerate 0 cols))"
  from build_fields_Inr[OF assms] have
    m: "map_of flds = map_of (rev ?kept)"
    and e: "distinct cols \<longrightarrow> flds = ?kept"
    and r: "\<forall>(i, c) \<in> set (enumerate 0 cols). c \<notin> set skip \<longrightarrow> i < length row"
    by auto
  have fk: "fst ` set ?kept = set cols - set skip"
  proof (intro equalityI subsetI)
    fix c assume "c \<in> fst ` set ?kept"
    then obtain i where "(i, c) \<in> set (enumerate 0 cols)" "c \<notin> set skip" by auto
    then show "c \<in> set cols - set skip" by (auto simp: in_set_enumerate_eq)
  next
    fix c assume c: "c \<in> set cols - set skip"
    then obtain i where i: "i < length cols" "cols ! i = c" by (auto simp: in_set_conv_nth)
    then have "(i, c) \<in> set (enumerate 0 cols)" by (auto simp: in_set_enumerate_eq)
    then have "(c, row ! i) \<in> set ?kept" using c by force
    then show "c \<in> fst ` set ?kept" by force
  qed
  show "dom (map_of flds) = set cols - set skip"
  proof -
    have "dom (map_of (rev ?kept)) = fst ` set (rev ?kept)" by (rule dom_map_of_conv_image_fst)
    also have "\<dots> = fst ` set ?kept" by (simp only: set_rev)
    finally show ?thesis using fk m by simp
  qed
  show "\<exists>i<length cols. cols ! i = c \<and> c \<notin> set skip \<and> i < length row \<and> row ! i = v"
    if "map_of flds c = Some v"
  proof -
    have "(c, v) \<in> set (rev ?kept)" using that unfolding m by (rule map_of_SomeD)
    then obtain i where i: "(i, c) \<in> set (enumerate 0 cols)" "c \<notin> set skip" "v = row ! i"
      by auto
    then have "i < length cols" "cols ! i = c" by (auto simp: in_set_enumerate_eq)
    moreover have "i < length row" using r i by auto
    ultimately show ?thesis using i by blast
  qed
  show "flds = ?kept" if "distinct cols" using e that by simp
qed


lemma build_records_Inl:
  "build_records skip all_columns rows = Inl e \<Longrightarrow> e = IndexError"
proof (induction rows)
  case Nil
  then show ?case by simp
next
  case (Cons row rows)
  show ?case
  proof (cases "build_fields skip row (enumerate 0 (drop 1 all_columns)) []")
    case (Inl e')
    then show ?thesis using Cons.prems build_fields_Inl[OF Inl] by (simp add: bind_err_def)
  next
    case (Inr flds)
    then show ?thesis using Cons by (auto simp: bind_err_def split: sum.splits)
  qed
qed

lemma build_records_Inr:
  "build_records skip all_columns rows = Inr recs \<Longrightarrow>
   length recs = length rows
   \<and> (\<forall>k<length rows. build_fields skip (rows ! k) (enumerate 0 (drop 1 all_columns)) [] = Inr (record_fields (recs ! k)))"
proof (induction rows arbitrary: recs)
  case Nil
  then show ?case by simp
next
  case (Cons row rows)
  from Cons.prems obtain flds recs' where
    f: "build_fields skip row (enumerate 0 (drop 1 all_columns)) [] = Inr flds"
    and r: "build_records skip all_columns rows = Inr recs'"
    and e: "recs = \<lparr>record_fields = flds\<rparr> # recs'"
    by (auto simp: bind_err_def split: sum.splits)
  from Cons.IH[OF r] have l: "length recs' = length rows"
    and g: "\<forall>k<length rows. build_fields skip (rows ! k) (enumerate 0 (drop 1 all_columns)) [] = Inr (record_fields (recs' ! k))"
    by auto
  have "build_fields skip ((row # rows) ! k) (enumerate 0 (drop 1 all_columns)) [] = Inr (record_fields (recs ! k))"
    if "k < length (row # rows)" for k
  proof (cases k)
    case 0
    then show ?thesis using f e by simp
  next
    case (Suc j)
    then show ?thesis using g that e by simp
  qed
  then show ?case using l e by simp
qed

lemma build_records_total:
  "\<forall>row\<in>set rows. length all_columns - 1 \<le> length row \<Longrightarrow>
   \<exists>recs. build_records skip all_columns rows = Inr recs"
proof (induction rows)
  case Nil
  then show ?case by simp
next
  case (Cons row rows)
  have "length (drop 1 all_columns) + 0 \<le> length row" using Cons.prems by simp
  from build_fields_total[OF this] obtain flds where
    "build_fields skip row (enumerate 0 (drop 1 all_columns)) [] = Inr flds" by blast
  moreover from Cons obtain recs where "build_records skip all_columns rows = Inr recs" by auto
  ultimately show ?case by (simp add: bind_err_def)
qed

lemma process_chunk_payload:
  assumes "build_records skip_columns all_columns rows = Inr recs"
  shows "process_chunk service rows skip_columns all_columns
     = process_chunk (\<lambda>p. service \<lparr>quorum = False, payload_records = recs, tokenization = Some True\<rparr>)
         rows skip_columns all_columns"
  by (simp add: process_chunk_def assms make_api_call_def)

text \<open>
  Claim C7. For every chunk of the CSV and Postgres scripts (\<open>process_chunk\<close> is the same
  text in both): either a row is too short for a column that is sent, then building the
  payload raises IndexError and nothing is transmitted; or the payload has one record per
  row, in the order of the rows, and the \<open>fields\<close> dict of the record of row \<open>k\<close> has
  exactly the columns of \<open>all_columns[1:]\<close> that are not in \<open>skip_columns\<close> as its keys,
  each of its values is the value of that row at the position of a column of that name
  that is not skipped (with distinct column names the dict is exactly the list of the
  pairs of a column that is not skipped and the value of the row at its position), and
  the only payload transmitted is \<open>quorum = False\<close>, \<open>tokenization = True\<close> and these
  records: the outcome of the chunk depends on the service through its answers to this
  payload only. No value at the position of a skipped column is put into the payload.
  Rows at least as long as the column list never raise.
\<close>

theorem payload_fields:
  "(case build_records skip_columns all_columns rows of
      Inl e \<Rightarrow> e = IndexError
               \<and> process_chunk service rows skip_columns all_columns = ([], Inl IndexError)
    | Inr recs \<Rightarrow>
        length recs = length rows
        \<and> (\<forall>k<length rows.
             dom (map_of (record_fields (recs ! k))) = set (drop 1 all_columns) - set skip_columns
             \<and> (\<forall>c v. map_of (record_fields (recs ! k)) c = Some v \<longrightarrow>
                   (\<exists>i<length (drop 1 all_columns). drop 1 all_columns ! i = c \<and> c \<notin> set skip_columns
                        \<and> i < length (rows ! k) \<and> rows ! k ! i = v))
             \<and> (distinct (drop 1 all_columns) \<longrightarrow>
                   record_fields (recs ! k) =
                     map (\<lambda>(i, c). (c, rows ! k ! i))
                       (filter (\<lambda>(i, c). c \<notin> set skip_columns) (enumerate 0 (drop 1 all_columns)))))
        \<and> process_chunk service rows skip_columns all_columns
            = process_chunk (\<lambda>p. service \<lparr>quorum = False, payload_records = recs, tokenization = Some True\<rparr>)
                rows skip_columns all_columns)
   \<and> ((\<forall>row\<in>set rows. length all_columns - 1 \<le> length row) \<longrightarrow>
        (\<exists>recs. build_records skip_columns all_columns rows = Inr recs))"
proof (cases "build_records skip_columns all_columns rows")
  case (Inl e)
  have "e = IndexError" using build_records_Inl[OF Inl] .
  moreover have "process_chunk service rows skip_columns all_columns = ([], Inl e)"
    by (simp add: process_chunk_def Inl)
  moreover have "\<not> (\<forall>row\<in>set rows. length all_columns - 1 \<le> length row)"
    using build_records_total[of rows all_columns skip_columns] Inl by auto
  ultimately show ?thesis using Inl by simp
next
  case (Inr recs)
  note br = build_records_Inr[OF Inr]
  have l: "length recs = length rows" using br by simp
  have f: "build_fields skip_columns (rows ! k) (enumerate 0 (drop 1 all_columns)) [] = Inr (record_fields (recs ! k))"
    if "k < length rows" for k using br that by simp
  have a: "\<forall>k<length rows.
             dom (map_of (record_fields (recs ! k))) = set (drop 1 all_columns) - set skip_columns
             \<and> (\<forall>c v. map_of (record_fields (recs ! k)) c = Some v \<longrightarrow>
                   (\<exists>i<length (drop 1 all_columns). drop 1 all_columns ! i = c \<and> c \<notin> set skip_columns
                        \<and> i < length (rows ! k) \<and> rows ! k ! i = v))
             \<and> (distinct (drop 1 all_columns) \<longrightarrow>
                   record_fields (recs ! k) =
                     map (\<lambda>(i, c). (c, rows ! k ! i))
                       (filter (\<lambda>(i, c). c \<notin> set skip_columns) (enumerate 0 (drop 1 all_columns))))"
    using build_fields_row[OF f] by blast
  show ?thesis
    using l a process_chunk_payload[OF Inr, of service] Inr by simp
qed

theorem payload_fields_witness:
  "build_records [''city''] [''skyflow_id'', ''name'', ''ssn'', ''city'']
       [[''A'', ''111'', ''X''], [''B'', ''222'', ''Y'']]
     = Inr [\<lparr>record_fields = [(''name'', ''A''), (''ssn'', ''111'')]\<rparr>,
            \<lparr>record_fields = [(''name'', ''B''), (''ssn'', ''222'')]\<rparr>]
   \<and> process_chunk echo_service [[''A'', ''111'', ''X''], [''B'', ''222'', ''Y'']] [''city'']
        [''skyflow_id'', ''name'', ''ssn'', ''city'']
     = process_chunk (\<lambda>p. echo_service \<lparr>quorum = False,
          payload_records = [\<lparr>record_fields = [(''name'', ''A''), (''ssn'', ''111'')]\<rparr>,
                             \<lparr>record_fields = [(''name'', ''B''), (''ssn'', ''222'')]\<rparr>],
          tokenization = Some True\<rparr>)
        [[''A'', ''111'', ''X''], [''B'', ''222'', ''Y'']] [''city'']
        [''skyflow_id'', ''name'', ''ssn'', ''city'']"
proof -
  have b: "build_records [''city''] [''skyflow_id'', ''name'', ''ssn'', ''city'']
       [[''A'', ''111'', ''X''], [''B'', ''222'', ''Y'']]
     = Inr [\<lparr>record_fields = [(''name'', ''A''), (''ssn'', ''111'')]\<rparr>,
            \<lparr>record_fields = [(''name'', ''B''), (''ssn'', ''222'')]\<rparr>]"
    by code_simp
  from payload_fields[where skip_columns = "[''city'']"
      and all_columns = "[''skyflow_id'', ''name'', ''ssn'', ''city'']"
      and rows = "[[''A'', ''111'', ''X''], [''B'', ''222'', ''Y'']]" and service = echo_service]
  have "process_chunk echo_service [[''A'', ''111'', ''X''], [''B'', ''222'', ''Y'']] [''city'']
        [''skyflow_id'', ''name'', ''ssn'', ''city'']
     = process_chunk (\<lambda>p. echo_service \<lparr>quorum = False,
          payload_records = [\<lparr>record_fields = [(''name'', ''A''), (''ssn'', ''111'')]\<rparr>,
                             \<lparr>record_fields = [(''name'', ''B''), (''ssn'', ''222'')]\<rparr>],
          tokenization = Some True\<rparr>)
        [[''A'', ''111'', ''X''], [''B'', ''222'', ''Y'']] [''city'']
        [''skyflow_id'', ''name'', ''ssn'', ''city'']"
    unfolding b by simp
  then show ?thesis using b by blast
qed

section \<open>The output rows of a successful chunk\<close>
















section \<open>A response with status 200 and no record\<close>

text \<open>
  Claim C6 at the response \<open>{"records": []}\<close> with status 200 for a chunk of two rows.
  The check \<open>all('tokens' in record for record in response_data['records'])\<close> holds of the
  empty list, so the response passes for well-formed in all scripts. In the CSV and
  Postgres scripts \<open>process_chunk\<close> then raises IndexError at \<open>response_data['records'][0]\<close>,
  which \<open>completed_future.result()\<close> re-raises: the run of the CSV script ends with
  IndexError and writes no destination file. In \<open>tokenize_data.py\<close>, \<open>zip\<close> pairs no row
  with a record: nothing is logged, nothing is written to the temporary file and nothing
  to the failed-records file.
\<close>

theorem empty_records_response_loses_rows:
  "process_chunk (\<lambda>p attempt. ok_response []) [[''A'', ''111''], [''B'', ''222'']] []
        [''skyflow_id'', ''name'', ''ssn'']
     = ([Post 0], Inl IndexError)
   \<and> main_csv ascii_strip ascii_lower (\<lambda>offset p attempt. ok_response []) (\<lambda>b. []) [] 2 5
        [[''name'', ''ssn''], [''A'', ''111''], [''B'', ''222'']]
     = Inl IndexError
   \<and> process_chunk_td (\<lambda>p attempt. ok_response [])
        [[(''name'', ''A''), (''ssn'', ''111'')], [(''name'', ''B''), (''ssn'', ''222'')]]
        [''name'', ''ssn'']
        \<lparr>temp_output = [[''skyflow_id'', ''name'', ''ssn'']], failed_records = [], output_csv = []\<rparr>
     = (\<lparr>temp_output = [[''skyflow_id'', ''name'', ''ssn'']], failed_records = [], output_csv = []\<rparr>,
        [Post 0], None)
   \<and> main_td (\<lambda>k p attempt. ok_response []) [] 2 [''name'', ''ssn'']
        [[(''name'', ''A''), (''ssn'', ''111'')], [(''name'', ''B''), (''ssn'', ''222'')]]
        \<lparr>temp_output = [], failed_records = [], output_csv = []\<rparr>
     = \<lparr>temp_output = [], failed_records = [], output_csv = [[''skyflow_id'', ''name'', ''ssn'']]\<rparr>"
  by code_simp

section \<open>The files after a run of \<open>tokenize_data.py\<close>\<close>











section \<open>A chunk that fails among chunks that succeed\<close>









end
